theory Spec2Isabelle
  imports Main "HOL-Library.Char_ord" "HOL-Library.List_Lexorder" "HOL-Library.Product_Lexorder"
    "HOL-Library.Log_Nat"
begin

section \<open>The data store\<close>

text \<open>
  Modelled from the spec: the schema of the two tables, which the repository does not
  create (\<open>db.sqlite3\<close> is opened, never built). The column names are those of the SQL
  text in \<open>app.js\<close>; the column types follow the spec's data model: a listing has a product
  name (string), a price (number) and a seller reference, a seller profile has an identity
  and a region (string). A price is the number the column holds, with its exact value: an
  integer or a binary fraction, as SQLite stores them (\<open>INTEGER\<close> or finite \<open>REAL\<close>). The
  identity of a profile is the key of its table, which holds no two rows with the same
  one: a profile table is a list of rows with distinct identities.
\<close>

record store_product =
  product_name :: string
  price :: rat
  farmerID :: nat

record app_userprofile =
  profile_id :: nat
  state :: string

typedef profile_table = "{ps :: app_userprofile list. distinct (map profile_id ps)}"
  morphisms profile_rows Profile_table
  by (rule exI [of _ "[]"]) simp

record tables =
  products :: "store_product list"
  profiles :: profile_table

text \<open>
  What \<open>db.all\<close> hands to its callback: an error message, or the rows, each row a
  JavaScript object from column name to value. A column value is \<open>null\<close>, a number or a
  string; a property the row does not have reads as \<open>undefined\<close> (\<open>None\<close>).
\<close>

datatype sqlval = SNull | SNum rat | SText string

type_synonym row = "(string \<times> sqlval) list"

definition property :: "row \<Rightarrow> string \<Rightarrow> sqlval option" where
  "property r k = map_of r k"

text \<open>
  The three statements the program prepares, each with its bound parameters:
  \<^item> \<open>CropsQuery\<close>: \<^verbatim>\<open>SELECT DISTINCT product_name FROM store_product\<close>, parameters \<open>[]\<close>;
  \<^item> \<open>DebugQuery crop\<close>: \<^verbatim>\<open>SELECT up.state, sp.price FROM store_product sp JOIN app_userprofile up ON sp.farmerID = up.id WHERE sp.product_name = ? ORDER BY up.state, sp.price\<close>,
    parameters \<open>[crop]\<close>;
  \<^item> \<open>AggregateQuery crop\<close>: \<^verbatim>\<open>SELECT up.state, MIN(sp.price) AS min_price, MAX(sp.price) AS max_price, COUNT(*) AS price_count, GROUP_CONCAT(sp.price) AS all_prices FROM store_product sp JOIN app_userprofile up ON sp.farmerID = up.id WHERE sp.product_name = ? GROUP BY up.state ORDER BY up.state\<close>,
    parameters \<open>[crop]\<close>.
\<close>

datatype statement = CropsQuery | DebugQuery string | AggregateQuery string

text \<open>
  The handle \<open>db\<close>: \<open>db_all\<close> answers a statement with \<open>Inl err.message\<close> or \<open>Inr rows\<close>,
  \<open>db_close\<close> is the error of \<open>db.close\<close>, if any. The handlers below are written against
  any such handle, so a failing store is a handle that answers \<open>Inl\<close>.
\<close>

record database =
  db_all :: "statement \<Rightarrow> string + row list"
  db_close :: "string option"

subsection \<open>Numbers as JavaScript reads them\<close>

text \<open>
  The driver hands every number of a row over as a JavaScript number, a binary64 double:
  the value is rounded to the nearest number with 53 significant bits (and no bit below
  \<open>2 powi - 1074\<close>), ties going to the even one. \<open>binade q\<close> is the exponent of the greatest
  power of two not above a positive \<open>q\<close>, \<open>ulp q\<close> the spacing of the doubles around it.
  The numbers SQLite can hold are far below the greatest finite double, so no overflow
  arises.
\<close>

definition round_even :: "rat \<Rightarrow> int" where
  "round_even x =
     (let f = \<lfloor>x\<rfloor>; r = x - of_int f in
      if r < 1 / 2 then f else if 1 / 2 < r then f + 1 else if even f then f else f + 1)"

definition binade :: "rat \<Rightarrow> int" where
  "binade q = (if 1 \<le> q then bitlen \<lfloor>q\<rfloor> - 1 else - bitlen (\<lceil>1 / q\<rceil> - 1))"

definition ulp :: "rat \<Rightarrow> rat" where
  "ulp q = 2 powi (max (binade q - 52) (- 1074))"

definition nearest :: "rat \<Rightarrow> rat" where
  "nearest q = of_int (round_even (q / ulp q)) * ulp q"

definition js_number :: "rat \<Rightarrow> rat" where
  "js_number q = (if q = 0 then 0 else if q < 0 then - nearest (- q) else nearest q)"

subsection \<open>What the SQL computes\<close>

text \<open>
  SQL leaves two things to the engine. The order of the rows of a \<open>SELECT DISTINCT\<close> with no
  \<open>ORDER BY\<close>: the distinct names come out stably rearranged by \<open>scan_rank\<close>, which is
  arbitrary (by \<open>crops_rows_any_order\<close> below, every order of the distinct names is the
  result for some rank). The text \<open>GROUP_CONCAT\<close> builds from a group's prices:
  \<open>group_concat\<close>, arbitrary.
\<close>

record engine =
  scan_rank :: "string \<Rightarrow> nat"
  group_concat :: "rat list \<Rightarrow> string"

definition crops_rows :: "engine \<Rightarrow> tables \<Rightarrow> row list" where
  "crops_rows e t =
     map (\<lambda>n. [(''product_name'', SText n)])
       (sort_key (scan_rank e) (remdups (map product_name (products t))))"

text \<open>
  \<open>FROM store_product sp JOIN app_userprofile up ON sp.farmerID = up.id
  WHERE sp.product_name = ?\<close>: the pairs (region, price) of the inner join.
\<close>

definition joined :: "tables \<Rightarrow> string \<Rightarrow> (string \<times> rat) list" where
  "joined t crop =
     [(state up, price sp). sp \<leftarrow> products t, up \<leftarrow> profile_rows (profiles t),
        farmerID sp = profile_id up \<and> product_name sp = crop]"

text \<open>
  \<open>ORDER BY up.state, sp.price\<close>: strings compare bytewise, as SQLite's default collation,
  prices by their exact values; the row then carries the price as JavaScript reads it.
\<close>

definition debug_rows :: "tables \<Rightarrow> string \<Rightarrow> row list" where
  "debug_rows t crop =
     map (\<lambda>(s, p). [(''state'', SText s), (''price'', SNum (js_number p))])
       (sort (joined t crop))"

text \<open>
  \<open>MIN\<close> and \<open>MAX\<close> of a group, taken by SQLite on the exact values and then read by
  JavaScript; of no value at all they are \<open>NULL\<close>.
\<close>

fun sql_min :: "rat list \<Rightarrow> sqlval" where
  "sql_min [] = SNull"
| "sql_min (p # ps) = SNum (js_number (fold min ps p))"

fun sql_max :: "rat list \<Rightarrow> sqlval" where
  "sql_max [] = SNull"
| "sql_max (p # ps) = SNum (js_number (fold max ps p))"

definition group_prices :: "(string \<times> rat) list \<Rightarrow> string \<Rightarrow> rat list" where
  "group_prices j s = map snd (filter (\<lambda>sp. fst sp = s) j)"

text \<open>\<open>COUNT(*)\<close> is the number of rows of the group; a count is far below \<open>2 ^ 53\<close>, where
  JavaScript reads every integer exactly.\<close>

definition aggregate_row :: "engine \<Rightarrow> (string \<times> rat) list \<Rightarrow> string \<Rightarrow> row" where
  "aggregate_row e j s =
     [(''state'', SText s),
      (''min_price'', sql_min (group_prices j s)),
      (''max_price'', sql_max (group_prices j s)),
      (''price_count'', SNum (of_nat (length (group_prices j s)))),
      (''all_prices'', SText (group_concat e (group_prices j s)))]"

text \<open>\<open>GROUP BY up.state ORDER BY up.state\<close>: one row for each region of the join, ascending.\<close>

definition aggregate_rows :: "engine \<Rightarrow> tables \<Rightarrow> string \<Rightarrow> row list" where
  "aggregate_rows e t crop =
     map (aggregate_row e (joined t crop)) (sort (remdups (map fst (joined t crop))))"

fun sqlite_all :: "engine \<Rightarrow> tables \<Rightarrow> statement \<Rightarrow> string + row list" where
  "sqlite_all e t CropsQuery = Inr (crops_rows e t)"
| "sqlite_all e t (DebugQuery crop) = Inr (debug_rows t crop)"
| "sqlite_all e t (AggregateQuery crop) = Inr (aggregate_rows e t crop)"

text \<open>A store whose statements all succeed, and whose close succeeds.\<close>

definition sqlite :: "engine \<Rightarrow> tables \<Rightarrow> database" where
  "sqlite e t = \<lparr>db_all = sqlite_all e t, db_close = None\<rparr>"

section \<open>Requests, responses and effects\<close>

datatype json = JNull | JNum rat | JStr string | JArr "json list" | JObj "(string \<times> json) list"

record response =
  status :: nat
  body :: json

text \<open>\<open>req.query\<close>: the parsed query string, from parameter name to its text.\<close>

record request =
  query :: "string \<rightharpoonup> string"

datatype level = LOG | WARN | ERROR

text \<open>
  An argument of a console call: a string, the rows of a result, a column value, or a
  template literal with one interpolated column value, kept as its text before the value,
  the value, and its text after (the text JavaScript gives the value goes between them).
\<close>

datatype logarg =
    ArgStr string
  | ArgTemplate string "sqlval option" string
  | ArgRows "row list"
  | ArgVal "sqlval option"

text \<open>What a handler does besides answering: the calls on the store, the console lines, the exit.\<close>

datatype event =
    DbAll statement
  | DbClose
  | Console level "logarg list"
  | Exit int

text \<open>\<open>JSON.stringify\<close>: a property whose value is \<open>undefined\<close> is left out of an object,
  an \<open>undefined\<close> element of an array is written \<open>null\<close>.\<close>

fun json_of :: "sqlval \<Rightarrow> json" where
  "json_of SNull = JNull"
| "json_of (SNum n) = JNum n"
| "json_of (SText s) = JStr s"

fun json_object :: "(string \<times> sqlval option) list \<Rightarrow> (string \<times> json) list" where
  "json_object [] = []"
| "json_object ((k, None) # kvs) = json_object kvs"
| "json_object ((k, Some v) # kvs) = (k, json_of v) # json_object kvs"

fun json_element :: "sqlval option \<Rightarrow> json" where
  "json_element None = JNull"
| "json_element (Some v) = json_of v"

section \<open>The route handlers\<close>

definition getCrops :: "database \<Rightarrow> request \<Rightarrow> event list \<times> response" where
  "getCrops db req =
     (case db_all db CropsQuery of
        Inl err \<Rightarrow>
          ([DbAll CropsQuery, Console ERROR [ArgStr ''Error fetching crops:'', ArgStr err]],
           \<lparr>status = 500, body = JObj [(''error'', JStr ''Error fetching crops'')]\<rparr>)
      | Inr rows \<Rightarrow>
          ([DbAll CropsQuery],
           \<lparr>status = 200,
            body = JObj [(''crops'', JArr (map (\<lambda>row. json_element (property row ''product_name'')) rows))]\<rparr>))"

text \<open>The check \<open>rows.forEach\<close> makes for equal minimum and maximum: \<open>===\<close> on two column values.\<close>

definition equal_warnings :: "row list \<Rightarrow> event list" where
  "equal_warnings rows =
     concat (map (\<lambda>row.
       if property row ''min_price'' = property row ''max_price''
       then [Console WARN
               [ArgTemplate ''Warning: Min and Max prices are equal for ''
                  (property row ''state'') '':'',
                ArgVal (property row ''all_prices'')]]
       else []) rows)"

definition essential :: "row \<Rightarrow> json" where
  "essential row =
     JObj (json_object
       [(''state'', property row ''state''),
        (''min_price'', property row ''min_price''),
        (''max_price'', property row ''max_price''),
        (''price_count'', property row ''price_count'')])"

definition getDashboard :: "database \<Rightarrow> request \<Rightarrow> event list \<times> response" where
  "getDashboard db req =
     (case query req ''crop'' of
        None \<Rightarrow> ([], \<lparr>status = 400, body = JObj [(''error'', JStr ''Crop name is required'')]\<rparr>)
      | Some crop \<Rightarrow>
          if crop = [] then
            ([], \<lparr>status = 400, body = JObj [(''error'', JStr ''Crop name is required'')]\<rparr>)
          else
            (case db_all db (DebugQuery crop) of
               Inl err \<Rightarrow>
                 ([DbAll (DebugQuery crop),
                   Console ERROR [ArgStr ''Error in debug query:'', ArgStr err]],
                  \<lparr>status = 500, body = JObj [(''error'', JStr ''Database error'')]\<rparr>)
             | Inr rawRows \<Rightarrow>
                 (case db_all db (AggregateQuery crop) of
                    Inl err \<Rightarrow>
                      ([DbAll (DebugQuery crop),
                        Console LOG [ArgStr (''Raw data for '' @ crop @ '':''), ArgRows rawRows],
                        DbAll (AggregateQuery crop),
                        Console ERROR [ArgStr ''Error fetching dashboard data:'', ArgStr err]],
                       \<lparr>status = 500, body = JObj [(''error'', JStr ''Error fetching dashboard data'')]\<rparr>)
                  | Inr rows \<Rightarrow>
                      ([DbAll (DebugQuery crop),
                        Console LOG [ArgStr (''Raw data for '' @ crop @ '':''), ArgRows rawRows],
                        DbAll (AggregateQuery crop),
                        Console LOG [ArgStr (''Aggregated results for '' @ crop @ '':''), ArgRows rows]]
                       @ equal_warnings rows,
                       \<lparr>status = 200, body = JArr (map essential rows)\<rparr>))))"

section \<open>Shutdown\<close>

text \<open>The listener \<open>setupShutdown\<close> registers for \<open>SIGINT\<close>, run on a handle \<open>db\<close>.\<close>

definition onSIGINT :: "database \<Rightarrow> event list" where
  "onSIGINT db =
     DbClose #
     (case db_close db of
        Some err \<Rightarrow> [Console ERROR [ArgStr ''Error closing database:'', ArgStr err]]
      | None \<Rightarrow> []) @
     [Console LOG [ArgStr ''Database connection closed''], Exit 0]"

section \<open>The dashboard, as the specification words it\<close>

text \<open>The region of a listing's seller, when the seller has a profile.\<close>

definition seller_region :: "tables \<Rightarrow> store_product \<Rightarrow> string option" where
  "seller_region t sp =
     map_of (map (\<lambda>up. (profile_id up, state up)) (profile_rows (profiles t))) (farmerID sp)"

text \<open>The listings of a crop whose seller is in region \<open>r\<close>.\<close>

definition matching :: "tables \<Rightarrow> string \<Rightarrow> string \<Rightarrow> store_product list" where
  "matching t crop r =
     filter (\<lambda>sp. product_name sp = crop \<and> seller_region t sp = Some r) (products t)"

text \<open>The seller regions of the listings of a crop.\<close>

definition regions :: "tables \<Rightarrow> string \<Rightarrow> string set" where
  "regions t crop =
     (\<Union>sp \<in> set (filter (\<lambda>sp. product_name sp = crop) (products t)).
        set_option (seller_region t sp))"

text \<open>The entry of one region: its name, the least and the greatest price of its matching
  listings, as JavaScript numbers, and their number.\<close>

definition region_entry :: "tables \<Rightarrow> string \<Rightarrow> string \<Rightarrow> json" where
  "region_entry t crop r =
     JObj [(''state'', JStr r),
           (''min_price'', JNum (js_number (Min (set (map price (matching t crop r)))))),
           (''max_price'', JNum (js_number (Max (set (map price (matching t crop r)))))),
           (''price_count'', JNum (of_nat (length (matching t crop r))))]"

text \<open>The rows one listing contributes to the join.\<close>

definition listing_rows :: "tables \<Rightarrow> string \<Rightarrow> store_product \<Rightarrow> (string \<times> rat) list" where
  "listing_rows t crop sp =
     (if product_name sp = crop
      then (case seller_region t sp of None \<Rightarrow> [] | Some r \<Rightarrow> [(r, price sp)])
      else [])"

section \<open>Concrete stores and requests\<close>

definition plain :: engine where
  "plain = \<lparr>scan_rank = (\<lambda>n. 0), group_concat = (\<lambda>ps. [])\<rparr>"

text \<open>Sellers A, B and C are the profiles 1, 2 and 3.\<close>

definition scenario :: tables where
  "scenario =
     \<lparr>products =
        [\<lparr>product_name = ''wheat'', price = 10, farmerID = 1\<rparr>,
         \<lparr>product_name = ''wheat'', price = 20, farmerID = 2\<rparr>,
         \<lparr>product_name = ''wheat'', price = 15, farmerID = 3\<rparr>],
      profiles = Profile_table
        [\<lparr>profile_id = 1, state = ''North''\<rparr>,
         \<lparr>profile_id = 2, state = ''North''\<rparr>,
         \<lparr>profile_id = 3, state = ''South''\<rparr>]\<rparr>"

definition wheat_request :: request where
  "wheat_request = \<lparr>query = [''crop'' \<mapsto> ''wheat'']\<rparr>"

definition bare_request :: request where
  "bare_request = \<lparr>query = Map.empty\<rparr>"

text \<open>A store with two crops, one of them listed twice, and a listing whose seller has no
  profile.\<close>

definition harvest :: tables where
  "harvest =
     \<lparr>products =
        [\<lparr>product_name = ''wheat'', price = 10, farmerID = 1\<rparr>,
         \<lparr>product_name = ''rice'', price = 7, farmerID = 2\<rparr>,
         \<lparr>product_name = ''wheat'', price = 12, farmerID = 9\<rparr>],
      profiles = Profile_table
        [\<lparr>profile_id = 1, state = ''North''\<rparr>,
         \<lparr>profile_id = 2, state = ''East''\<rparr>]\<rparr>"

text \<open>
  A store with wheat in three regions, listed out of region order: two listings in North
  at different prices, one of them fractional, one in South, one in East at a price above
  \<open>2 ^ 53\<close>; a listing whose seller has no profile; and a listing of another crop.
\<close>

definition market :: tables where
  "market =
     \<lparr>products =
        [\<lparr>product_name = ''wheat'', price = 20, farmerID = 2\<rparr>,
         \<lparr>product_name = ''wheat'', price = 21 / 2, farmerID = 1\<rparr>,
         \<lparr>product_name = ''rice'', price = 7, farmerID = 2\<rparr>,
         \<lparr>product_name = ''wheat'', price = 15, farmerID = 3\<rparr>,
         \<lparr>product_name = ''wheat'', price = 12, farmerID = 9\<rparr>,
         \<lparr>product_name = ''wheat'', price = 9007199254740993, farmerID = 4\<rparr>],
      profiles = Profile_table
        [\<lparr>profile_id = 1, state = ''North''\<rparr>,
         \<lparr>profile_id = 2, state = ''South''\<rparr>,
         \<lparr>profile_id = 3, state = ''North''\<rparr>,
         \<lparr>profile_id = 4, state = ''East''\<rparr>]\<rparr>"

text \<open>A request whose \<open>crop\<close> parameter is the empty string.\<close>

definition nameless_request :: request where
  "nameless_request = \<lparr>query = [''crop'' \<mapsto> []]\<rparr>"

definition vacant :: tables where
  "vacant = \<lparr>products = [], profiles = Profile_table []\<rparr>"

text \<open>Handles on \<open>scenario\<close> on which one statement fails: the diagnostic one, the aggregate
  one; and a handle whose close fails.\<close>

definition debug_down :: database where
  "debug_down =
     \<lparr>db_all = (\<lambda>q. case q of DebugQuery c \<Rightarrow> Inl ''disk I/O error''
                          | _ \<Rightarrow> sqlite_all plain scenario q),
      db_close = None\<rparr>"

definition aggregate_down :: database where
  "aggregate_down =
     \<lparr>db_all = (\<lambda>q. case q of AggregateQuery c \<Rightarrow> Inl ''disk I/O error''
                          | _ \<Rightarrow> sqlite_all plain scenario q),
      db_close = None\<rparr>"

definition close_down :: database where
  "close_down = \<lparr>db_all = sqlite_all plain scenario, db_close = Some ''database is locked''\<rparr>"


definition rice_request :: request where
  "rice_request = \<lparr>query = [''crop'' \<mapsto> ''rice'']\<rparr>"

section \<open>Reading numbers\<close>

lemma binade_bounds:
  assumes "0 < q"
  shows "2 powi binade q \<le> q" and "q < 2 powi (binade q + 1)"
proof -
  have "2 powi binade q \<le> q \<and> q < 2 powi (binade q + 1)"
  proof (cases "1 \<le> q")
    case True
    define n where "n = \<lfloor>q\<rfloor>"
    have n: "1 \<le> n" using True by (simp add: n_def le_floor_iff)
    then have b: "1 \<le> bitlen n" by (simp add: bitlen_alt_def)
    have lo: "(2::int) ^ nat (bitlen n - 1) \<le> n" and hi: "n < 2 ^ nat (bitlen n)"
      using bitlen_bounds [of n] n by auto
    have k: "binade q = bitlen n - 1" using True by (simp add: binade_def n_def)
    have "(2::rat) powi (bitlen n - 1) = of_int (2 ^ nat (bitlen n - 1))"
      using b by (simp add: power_int_nonneg_exp)
    also have "\<dots> \<le> of_int n" using lo by (simp only: of_int_le_iff)
    also have "\<dots> \<le> q" by (simp add: n_def)
    finally have 1: "2 powi binade q \<le> q" by (simp add: k)
    have "n + 1 \<le> 2 ^ nat (bitlen n)" using hi by simp
    then have "(of_int (n + 1) :: rat) \<le> of_int (2 ^ nat (bitlen n))"
      by (simp only: of_int_le_iff)
    moreover have "q < of_int (n + 1)" using floor_correct [of q] by (simp add: n_def)
    ultimately have "q < of_int (2 ^ nat (bitlen n))" by simp
    also have "\<dots> = 2 powi (bitlen n)"
      using b by (simp add: power_int_nonneg_exp)
    finally have 2: "q < 2 powi (binade q + 1)" by (simp add: k)
    from 1 2 show ?thesis ..
  next
    case False
    define r where "r = 1 / q"
    define m where "m = \<lceil>r\<rceil> - 1"
    have r: "1 < r" using False assms by (simp add: r_def)
    have q: "q = 1 / r" using assms by (simp add: r_def)
    have m: "1 \<le> m" using r by (simp add: m_def less_ceiling_iff)
    then have b: "1 \<le> bitlen m" by (simp add: bitlen_alt_def)
    have lo: "(2::int) ^ nat (bitlen m - 1) \<le> m" and hi: "m < 2 ^ nat (bitlen m)"
      using bitlen_bounds [of m] m by auto
    have mr: "of_int m < r" using ceiling_correct [of r] by (simp add: m_def)
    have rm: "r \<le> of_int (m + 1)" using ceiling_correct [of r] by (simp add: m_def)
    have k: "binade q = - bitlen m" using False by (simp add: binade_def m_def r_def)
    have "m + 1 \<le> 2 ^ nat (bitlen m)" using hi by simp
    then have "(of_int (m + 1) :: rat) \<le> of_int (2 ^ nat (bitlen m))"
      by (simp only: of_int_le_iff)
    with rm have "r \<le> of_int (2 ^ nat (bitlen m))" by simp
    also have "\<dots> = 2 powi (bitlen m)"
      using b by (simp add: power_int_nonneg_exp)
    finally have "1 / (2 powi (bitlen m)) \<le> 1 / r"
      using r by (intro divide_left_mono) (simp_all add: zero_less_power_int)
    then have "2 powi (- bitlen m) \<le> 1 / r"
      by (simp add: power_int_minus_divide)
    then have 1: "2 powi binade q \<le> q"
      unfolding k using q by simp
    have "(of_int (2 ^ nat (bitlen m - 1)) :: rat) \<le> of_int m"
      using lo by (simp only: of_int_le_iff)
    then have "of_int (2 ^ nat (bitlen m - 1)) < r" using mr by (rule le_less_trans)
    moreover have "(of_int (2 ^ nat (bitlen m - 1)) :: rat) = 2 powi (bitlen m - 1)"
      using b by (simp add: power_int_nonneg_exp)
    ultimately have "2 powi (bitlen m - 1) < r" by simp
    then have "1 / r < 1 / (2 powi (bitlen m - 1))"
      using r by (intro divide_strict_left_mono mult_pos_pos) (simp_all add: zero_less_power_int)
    moreover have "1 / ((2::rat) powi (bitlen m - 1)) = 2 powi (- bitlen m + 1)"
      using power_int_minus_divide [of "2::rat" "bitlen m - 1"] by simp
    ultimately have "1 / r < 2 powi (- bitlen m + 1)"
      by simp
    then have 2: "q < 2 powi (binade q + 1)"
      unfolding k using q by simp
    from 1 2 show ?thesis ..
  qed
  then show "2 powi binade q \<le> q" and "q < 2 powi (binade q + 1)" by simp_all
qed


lemma binade_mono:
  assumes "0 < x" and "x \<le> y"
  shows "binade x \<le> binade y"
proof (rule ccontr)
  assume "\<not> binade x \<le> binade y"
  then have "binade y + 1 \<le> binade x" by simp
  then have "(2::rat) powi (binade y + 1) \<le> 2 powi binade x"
    by (intro power_int_increasing) simp_all
  moreover have "y < 2 powi (binade y + 1)"
    using assms by (intro binade_bounds) simp
  moreover have "2 powi binade x \<le> x"
    using assms by (intro binade_bounds)
  ultimately show False using assms(2) by simp
qed

lemma round_even_upper: "of_int (round_even x) \<le> x + 1 / 2"
  by (auto simp: round_even_def Let_def; linarith)

lemma round_even_lower: "x - 1 / 2 \<le> of_int (round_even x)"
  by (auto simp: round_even_def Let_def; linarith)

lemma round_even_of_int: "round_even (of_int n) = n"
  by (simp add: round_even_def)

lemma round_even_mono:
  assumes "x \<le> y"
  shows "round_even x \<le> round_even y"
proof (cases "x = y")
  case True
  then show ?thesis by simp
next
  case False
  show ?thesis
  proof (rule ccontr)
    assume "\<not> round_even x \<le> round_even y"
    then have "round_even y + 1 \<le> round_even x" by simp
    then have "(of_int (round_even y + 1) :: rat) \<le> of_int (round_even x)"
      by (simp only: of_int_le_iff)
    then have "(of_int (round_even y) :: rat) + 1 \<le> of_int (round_even x)" by simp
    with round_even_upper [of x] round_even_lower [of y] have "y \<le> x" by linarith
    with assms False show False by simp
  qed
qed

lemma round_even_ge: "of_int n \<le> x \<Longrightarrow> n \<le> round_even x"
  using round_even_mono [of "of_int n" x] by (simp add: round_even_of_int)

lemma round_even_le: "x \<le> of_int n \<Longrightarrow> round_even x \<le> n"
  using round_even_mono [of x "of_int n"] by (simp add: round_even_of_int)

lemma ulp_pos: "0 < ulp q"
  by (simp add: ulp_def)

lemma nearest_ge:
  assumes "of_int n * ulp q \<le> q"
  shows "of_int n * ulp q \<le> nearest q"
proof -
  have "of_int n \<le> q / ulp q"
    using assms ulp_pos [of q] by (simp add: pos_le_divide_eq)
  then have "n \<le> round_even (q / ulp q)" by (rule round_even_ge)
  then have "(of_int n :: rat) \<le> of_int (round_even (q / ulp q))" by (simp only: of_int_le_iff)
  then show ?thesis
    unfolding nearest_def using ulp_pos [of q] by (intro mult_right_mono) simp_all
qed

lemma nearest_le:
  assumes "q \<le> of_int n * ulp q"
  shows "nearest q \<le> of_int n * ulp q"
proof -
  have "q / ulp q \<le> of_int n"
    using assms ulp_pos [of q] by (simp add: pos_divide_le_eq)
  then have "round_even (q / ulp q) \<le> n" by (rule round_even_le)
  then have "(of_int (round_even (q / ulp q)) :: rat) \<le> of_int n" by (simp only: of_int_le_iff)
  then show ?thesis
    unfolding nearest_def using ulp_pos [of q] by (intro mult_right_mono) simp_all
qed

lemma nearest_nonneg: "0 \<le> q \<Longrightarrow> 0 \<le> nearest q"
  using nearest_ge [of 0 q] by simp

lemma nearest_mono:
  assumes "0 < x" and "x \<le> y"
  shows "nearest x \<le> nearest y"
proof -
  define ex where "ex = max (binade x - 52) (- 1074)"
  define ey where "ey = max (binade y - 52) (- 1074)"
  have ux: "ulp x = 2 powi ex" and uy: "ulp y = 2 powi ey"
    by (simp_all add: ulp_def ex_def ey_def)
  have kxy: "binade x \<le> binade y" using assms by (rule binade_mono)
  then have exy: "ex \<le> ey" by (simp add: ex_def ey_def)
  show ?thesis
  proof (cases "ex = ey")
    case True
    then have u: "ulp x = ulp y" by (simp add: ux uy)
    have "x / ulp y \<le> y / ulp y"
      using assms(2) ulp_pos [of y] by (simp add: divide_right_mono)
    then have "round_even (x / ulp y) \<le> round_even (y / ulp y)" by (rule round_even_mono)
    then have "(of_int (round_even (x / ulp y)) :: rat) \<le> of_int (round_even (y / ulp y))"
      by (simp only: of_int_le_iff)
    then show ?thesis
      unfolding nearest_def u using ulp_pos [of y] by (intro mult_right_mono) simp_all
  next
    case False
    with exy have lt: "ex < ey" by simp
    then have ey: "ey = binade y - 52" and big: "- 1074 < binade y - 52"
      by (auto simp: ex_def ey_def max_def split: if_splits)
    have kx: "binade x < binade y"
      using lt kxy by (cases "binade x = binade y") (simp_all add: ex_def ey_def)
    define P :: rat where "P = 2 powi binade y"
    have "x < 2 powi (binade x + 1)" using assms(1) by (rule binade_bounds)
    also have "\<dots> \<le> P"
      unfolding P_def using kx by (intro power_int_increasing) simp_all
    finally have xP: "x \<le> P" by simp
    have Py: "P \<le> y"
      unfolding P_def using assms by (intro binade_bounds) simp
    have "(2::rat) powi binade y = 2 powi (52 + (binade y - 52))"
      by simp
    also have "\<dots> = 2 powi 52 * 2 powi (binade y - 52)"
      by (rule power_int_add) simp
    finally have Pfy: "P = of_int (2 ^ 52) * ulp y"
      by (simp add: P_def uy ey)
    have d: "0 \<le> binade y - ex" using lt ey by simp
    have "(2::rat) powi binade y = 2 powi ((binade y - ex) + ex)"
      by simp
    also have "\<dots> = 2 powi (binade y - ex) * 2 powi ex"
      by (rule power_int_add) simp
    also have "(2::rat) powi (binade y - ex) = of_int (2 ^ nat (binade y - ex))"
      using d by (simp add: power_int_nonneg_exp)
    finally have Pfx: "P = of_int (2 ^ nat (binade y - ex)) * ulp x"
      by (simp add: P_def ux)
    have "nearest x \<le> P"
      using xP nearest_le [of x "2 ^ nat (binade y - ex)"] by (simp only: Pfx)
    moreover have "P \<le> nearest y"
      using Py nearest_ge [of "2 ^ 52" y] by (simp only: Pfy)
    ultimately show ?thesis by simp
  qed
qed

lemma js_number_mono:
  assumes "x \<le> y"
  shows "js_number x \<le> js_number y"
proof -
  consider "y < 0" | "x < 0" "0 \<le> y" | "0 \<le> x" by linarith
  then show ?thesis
  proof cases
    case 1
    then have "nearest (- y) \<le> nearest (- x)"
      using assms by (intro nearest_mono) simp_all
    with 1 assms show ?thesis by (simp add: js_number_def)
  next
    case 2
    have "0 \<le> nearest (- x)" using 2 by (intro nearest_nonneg) simp
    moreover have "0 \<le> js_number y"
      using 2 nearest_nonneg [of y] by (simp add: js_number_def)
    ultimately show ?thesis using 2 by (simp add: js_number_def)
  next
    case 3
    show ?thesis
    proof (cases "x = 0")
      case True
      then show ?thesis
        using 3 assms nearest_nonneg [of y] by (simp add: js_number_def)
    next
      case False
      with 3 assms have "0 < x" "0 < y" by simp_all
      then show ?thesis
        using assms nearest_mono [of x y] by (simp add: js_number_def)
    qed
  qed
qed


lemma nearest_exact:
  assumes "0 < m" and "m < 2 ^ 53" and "- 1074 \<le> i"
  shows "nearest (of_int m * 2 powi i) = of_int m * 2 powi i"
proof -
  define q :: rat where "q = of_int m * 2 powi i"
  define e where "e = max (binade q - 52) (- 1074)"
  have pos: "0 < q" using assms(1) by (simp add: q_def)
  have "q < of_int (2 ^ 53) * 2 powi i"
    unfolding q_def using assms(2) by (intro mult_strict_right_mono) (simp_all del: of_int_power)
  also have "\<dots> = 2 powi (53 + i)"
    using power_int_add [of "2::rat" 53 i] by simp
  finally have qlt: "q < 2 powi (53 + i)" .
  have "binade q < 53 + i"
  proof (rule ccontr)
    assume "\<not> binade q < 53 + i"
    then have "(2::rat) powi (53 + i) \<le> 2 powi binade q"
      by (intro power_int_increasing) simp_all
    also have "\<dots> \<le> q" using pos by (rule binade_bounds)
    finally show False using qlt by simp
  qed
  then have ei: "e \<le> i" using assms(3) by (simp add: e_def)
  have u: "ulp q = 2 powi e" by (simp add: ulp_def e_def)
  have "(2::rat) powi i = 2 powi ((i - e) + e)" by simp
  also have "\<dots> = 2 powi (i - e) * 2 powi e" by (rule power_int_add) simp
  also have "(2::rat) powi (i - e) = of_int (2 ^ nat (i - e))"
    using ei by (simp add: power_int_nonneg_exp)
  finally have split: "(2::rat) powi i = of_int (2 ^ nat (i - e)) * 2 powi e" .
  have qe: "q = of_int (m * 2 ^ nat (i - e)) * 2 powi e"
    by (simp add: q_def split)
  have "of_int (m * 2 ^ nat (i - e)) * 2 powi e / 2 powi e = (of_int (m * 2 ^ nat (i - e)) :: rat)"
    by simp
  then have "q / 2 powi e = of_int (m * 2 ^ nat (i - e))"
    by (simp only: qe [symmetric])
  then have "q / ulp q = of_int (m * 2 ^ nat (i - e))"
    by (simp only: u)
  then have "round_even (q / ulp q) = m * 2 ^ nat (i - e)"
    by (simp only: round_even_of_int)
  then have "nearest q = of_int (m * 2 ^ nat (i - e)) * 2 powi e"
    by (simp add: nearest_def u)
  also have "\<dots> = q"
    by (simp only: qe [symmetric])
  finally show ?thesis by (simp only: q_def)
qed

lemma js_number_exact:
  assumes "\<bar>m\<bar> < 2 ^ 53" and "- 1074 \<le> i"
  shows "js_number (of_int m * 2 powi i) = of_int m * 2 powi i"
proof -
  consider "m = 0" | "0 < m" | "m < 0" by linarith
  then show ?thesis
  proof cases
    case 1
    then show ?thesis by (simp add: js_number_def)
  next
    case 2
    then have p: "0 < (of_int m :: rat) * 2 powi i" by simp
    have "\<not> (of_int m :: rat) * 2 powi i < 0" and "(of_int m :: rat) * 2 powi i \<noteq> 0"
      using p by linarith+
    moreover have "nearest (of_int m * 2 powi i) = of_int m * 2 powi i"
      using 2 assms by (intro nearest_exact) simp_all
    ultimately show ?thesis
      by (simp only: js_number_def if_False)
  next
    case 3
    then have neg: "(of_int m :: rat) * 2 powi i < 0"
      by (simp add: mult_neg_pos)
    have "nearest (of_int (- m) * 2 powi i) = of_int (- m) * 2 powi i"
      using 3 assms by (intro nearest_exact) simp_all
    moreover have "(of_int m :: rat) * 2 powi i \<noteq> 0"
      using neg by linarith
    ultimately show ?thesis
      using neg by (simp add: js_number_def)
  qed
qed

lemma js_number_of_int:
  assumes "\<bar>m\<bar> < 2 ^ 53"
  shows "js_number (of_int m) = of_int m"
  using js_number_exact [OF assms, of 0] by simp

text \<open>The prices of the concrete stores are doubles; \<open>2 ^ 53 + 1\<close> is not.\<close>

lemma js_number_small:
  "js_number 10 = 10" "js_number 15 = 15" "js_number 20 = 20"
  using js_number_of_int [of 10] js_number_of_int [of 15] js_number_of_int [of 20]
  by simp_all

lemma js_number_half: "js_number (21 / 2) = 21 / 2"
  using js_number_exact [of 21 "- 1"] by simp

lemma js_number_tie: "js_number 9007199254740993 = 9007199254740992"
  by code_simp

section \<open>The order of a \<open>SELECT DISTINCT\<close>\<close>

lemma position_nth:
  assumes "distinct ys" and "i < length ys"
  shows "length (takeWhile (\<lambda>y. y \<noteq> ys ! i) ys) = i"
proof -
  have "takeWhile (\<lambda>y. y \<noteq> ys ! i) ys = take i ys"
  proof (rule takeWhile_eq_take_P_nth)
    fix j assume "j < i" and "j < length ys"
    with assms show "ys ! j \<noteq> ys ! i"
      by (simp add: nth_eq_iff_index_eq)
  next
    show "\<not> ys ! i \<noteq> ys ! i" by simp
  qed
  with assms(2) show ?thesis by simp
qed

lemma positions_upt:
  assumes "distinct ys"
  shows "map (\<lambda>x. length (takeWhile (\<lambda>y. y \<noteq> x) ys)) ys = [0..<length ys]"
  by (rule nth_equalityI) (simp_all add: position_nth [OF assms])

lemma rank_reaches_order:
  fixes xs ys :: "'a list"
  assumes "distinct ys" and "set ys = set xs"
  shows "sort_key (\<lambda>x. length (takeWhile (\<lambda>y. y \<noteq> x) ys)) (remdups xs) = ys"
proof -
  let ?f = "\<lambda>x. length (takeWhile (\<lambda>y. y \<noteq> x) ys)"
  have inj: "inj_on ?f (set ys)"
  proof (rule inj_onI)
    fix a b assume "a \<in> set ys" "b \<in> set ys" and eq: "?f a = ?f b"
    then obtain i j where "i < length ys" "ys ! i = a" "j < length ys" "ys ! j = b"
      by (auto simp: in_set_conv_nth)
    then show "a = b"
      using eq position_nth [OF assms(1), of i] position_nth [OF assms(1), of j] by auto
  qed
  show ?thesis
  proof (rule map_sorted_distinct_set_unique [of ?f])
    show "inj_on ?f (set (sort_key ?f (remdups xs)) \<union> set ys)"
      using inj assms(2) by simp
    show "sorted (map ?f (sort_key ?f (remdups xs)))"
      by simp
    show "distinct (map ?f (sort_key ?f (remdups xs)))"
      using inj assms(2) by (simp add: distinct_map)
    show "sorted (map ?f ys)"
      by (simp add: positions_upt [OF assms(1)])
    show "distinct (map ?f ys)"
      by (simp add: positions_upt [OF assms(1)])
    show "set (sort_key ?f (remdups xs)) = set ys"
      using assms(2) by simp
  qed
qed

text \<open>Every enumeration of the distinct product names is what some engine returns.\<close>

lemma crops_rows_any_order:
  assumes "distinct ns" and "set ns = set (map product_name (products t))"
  shows "\<exists>rank. crops_rows (e\<lparr>scan_rank := rank\<rparr>) t = map (\<lambda>n. [(''product_name'', SText n)]) ns"
proof (rule exI [of _ "\<lambda>x. length (takeWhile (\<lambda>y. y \<noteq> x) ns)"])
  show "crops_rows (e\<lparr>scan_rank := \<lambda>x. length (takeWhile (\<lambda>y. y \<noteq> x) ns)\<rparr>) t
          = map (\<lambda>n. [(''product_name'', SText n)]) ns"
    by (simp add: crops_rows_def rank_reaches_order [OF assms])
qed

section \<open>The join and the groups\<close>

lemma join_one:
  "distinct (map profile_id ups) \<Longrightarrow>
   [(state up, p). up \<leftarrow> ups, k = profile_id up \<and> c] =
     (if c then (case map_of (map (\<lambda>up. (profile_id up, state up)) ups) k of
                   None \<Rightarrow> [] | Some r \<Rightarrow> [(r, p)]) else [])"
proof (induction ups)
  case Nil
  then show ?case by simp
next
  case (Cons up ups)
  have absent: "map_of (map (\<lambda>up. (profile_id up, state up)) ups) (profile_id up) = None"
    using Cons.prems by (simp add: map_of_eq_None_iff image_image)
  show ?case
    using Cons absent by (auto split: option.splits)
qed

lemma profile_ids_distinct: "distinct (map profile_id (profile_rows p))"
  using profile_rows [of p] by simp

lemma joined_unfold: "joined t crop = concat (map (listing_rows t crop) (products t))"
  unfolding joined_def seller_region_def listing_rows_def
  by (simp add: join_one [OF profile_ids_distinct])

lemma listing_rows_group:
  "map snd (filter (\<lambda>x. fst x = r) (listing_rows t crop sp)) =
     (if product_name sp = crop \<and> seller_region t sp = Some r then [price sp] else [])"
  by (cases "seller_region t sp"; cases "product_name sp = crop")
     (simp_all add: listing_rows_def)

lemma listing_rows_regions:
  "fst ` set (listing_rows t crop sp) =
     (if product_name sp = crop then set_option (seller_region t sp) else {})"
  by (cases "seller_region t sp"; cases "product_name sp = crop")
     (simp_all add: listing_rows_def)

lemma group_of_concat:
  "map snd (filter (\<lambda>x. fst x = r) (concat (map (listing_rows t crop) ps)))
     = map price (filter (\<lambda>sp. product_name sp = crop \<and> seller_region t sp = Some r) ps)"
  by (induction ps) (simp_all add: listing_rows_group)

lemma group_prices_matching:
  "group_prices (joined t crop) r = map price (matching t crop r)"
  by (simp add: group_prices_def joined_unfold matching_def group_of_concat)

lemma joined_regions: "set (map fst (joined t crop)) = regions t crop"
  unfolding joined_unfold regions_def
  by (auto simp: listing_rows_regions image_UN split: if_splits)

lemma regions_matching: "r \<in> regions t crop \<longleftrightarrow> matching t crop r \<noteq> []"
  by (auto simp: regions_def matching_def filter_empty_conv)

lemma finite_regions: "finite (regions t crop)"
  by (simp add: regions_def)

lemma sql_min_Min: "ps \<noteq> [] \<Longrightarrow> sql_min ps = SNum (js_number (Min (set ps)))"
  by (cases ps) (simp_all add: Min.set_eq_fold [symmetric])

lemma sql_max_Max: "ps \<noteq> [] \<Longrightarrow> sql_max ps = SNum (js_number (Max (set ps)))"
  by (cases ps) (simp_all add: Max.set_eq_fold [symmetric])

lemma essential_aggregate_row:
  assumes "r \<in> regions t crop"
  shows "essential (aggregate_row e (joined t crop) r) = region_entry t crop r"
proof -
  have ne: "map price (matching t crop r) \<noteq> []"
    using assms by (simp add: regions_matching)
  show ?thesis
    by (simp add: essential_def aggregate_row_def property_def region_entry_def
        group_prices_matching sql_min_Min [OF ne] sql_max_Max [OF ne])
qed

lemma aggregate_states:
  "sort (remdups (map fst (joined t crop))) = sorted_list_of_set (regions t crop)"
  using joined_regions [of t crop]
    sorted_list_of_set_sort_remdups [of "map fst (joined t crop)"]
  by simp

section \<open>The branches of the dashboard handler\<close>

lemma dashboard_debug_failed:
  assumes "query req ''crop'' = Some crop" and "crop \<noteq> []"
    and "db_all db (DebugQuery crop) = Inl err"
  shows "getDashboard db req =
     ([DbAll (DebugQuery crop), Console ERROR [ArgStr ''Error in debug query:'', ArgStr err]],
      \<lparr>status = 500, body = JObj [(''error'', JStr ''Database error'')]\<rparr>)"
  using assms by (simp add: getDashboard_def)

lemma dashboard_aggregate_failed:
  assumes "query req ''crop'' = Some crop" and "crop \<noteq> []"
    and "db_all db (DebugQuery crop) = Inr raw"
    and "db_all db (AggregateQuery crop) = Inl err"
  shows "getDashboard db req =
     ([DbAll (DebugQuery crop),
       Console LOG [ArgStr (''Raw data for '' @ crop @ '':''), ArgRows raw],
       DbAll (AggregateQuery crop),
       Console ERROR [ArgStr ''Error fetching dashboard data:'', ArgStr err]],
      \<lparr>status = 500, body = JObj [(''error'', JStr ''Error fetching dashboard data'')]\<rparr>)"
  using assms by (simp add: getDashboard_def)


lemma dashboard_sqlite:
  assumes "query req ''crop'' = Some crop" and "crop \<noteq> []"
  shows "snd (getDashboard (sqlite e t) req) =
           \<lparr>status = 200, body = JArr (map essential (aggregate_rows e t crop))\<rparr>"
  using assms by (simp add: getDashboard_def sqlite_def)

lemma scenario_profiles:
  "profile_rows (profiles scenario) =
     [\<lparr>profile_id = 1, state = ''North''\<rparr>,
      \<lparr>profile_id = 2, state = ''North''\<rparr>,
      \<lparr>profile_id = 3, state = ''South''\<rparr>]"
  by (simp add: scenario_def Profile_table_inverse)

lemma scenario_join:
  "joined scenario ''wheat'' = [(''North'', 10), (''North'', 20), (''South'', 15)]"
  by (simp add: joined_def scenario_profiles) (simp add: scenario_def)

lemma market_profiles:
  "profile_rows (profiles market) =
     [\<lparr>profile_id = 1, state = ''North''\<rparr>,
      \<lparr>profile_id = 2, state = ''South''\<rparr>,
      \<lparr>profile_id = 3, state = ''North''\<rparr>,
      \<lparr>profile_id = 4, state = ''East''\<rparr>]"
  by (simp add: market_def Profile_table_inverse)

lemma market_join:
  "joined market ''wheat'' =
     [(''South'', 20), (''North'', 21 / 2), (''North'', 15), (''East'', 9007199254740993)]"
  by (simp add: joined_def market_profiles) (simp add: market_def)

lemma scenario_states:
  "sort (remdups (map fst (joined scenario ''wheat''))) = [''North'', ''South'']"
  unfolding scenario_join by code_simp

lemma scenario_rows:
  "aggregate_rows e scenario ''wheat'' =
     [[(''state'', SText ''North''), (''min_price'', SNum 10), (''max_price'', SNum 20),
       (''price_count'', SNum 2), (''all_prices'', SText (group_concat e [10, 20]))],
      [(''state'', SText ''South''), (''min_price'', SNum 15), (''max_price'', SNum 15),
       (''price_count'', SNum 1), (''all_prices'', SText (group_concat e [15]))]]"
  unfolding aggregate_rows_def scenario_states
  by (simp add: scenario_join aggregate_row_def group_prices_def js_number_small)

section \<open>Per-region aggregates\<close>

text \<open>
  C1. For every non-empty crop name, whose listings are spread over R distinct seller
  regions, the dashboard answers 200 with exactly R entries, one for each of these regions,
  in strictly ascending order of region name; each entry carries the number of the crop's
  listings in its region as \<open>price_count\<close>, and as \<open>min_price\<close> and \<open>max_price\<close> their least
  and their greatest price as JavaScript reads them, the first not above the second.
\<close>

theorem dashboard_per_region:
  assumes "query req ''crop'' = Some crop" and "crop \<noteq> []"
  shows "snd (getDashboard (sqlite e t) req) =
           \<lparr>status = 200,
            body = JArr (map (region_entry t crop) (sorted_list_of_set (regions t crop)))\<rparr>
         \<and> length (sorted_list_of_set (regions t crop)) = card (regions t crop)
         \<and> sorted_wrt (<) (sorted_list_of_set (regions t crop))
         \<and> (\<forall>r \<in> regions t crop.
               js_number (Min (set (map price (matching t crop r))))
                 \<le> js_number (Max (set (map price (matching t crop r)))))"
proof (intro conjI ballI)
  have "map essential (aggregate_rows e t crop) =
        map (region_entry t crop) (sorted_list_of_set (regions t crop))"
    unfolding aggregate_rows_def aggregate_states
    by (simp add: essential_aggregate_row finite_regions)
  then show "snd (getDashboard (sqlite e t) req) =
           \<lparr>status = 200,
            body = JArr (map (region_entry t crop) (sorted_list_of_set (regions t crop)))\<rparr>"
    by (simp add: dashboard_sqlite [OF assms])
next
  show "length (sorted_list_of_set (regions t crop)) = card (regions t crop)"
    by simp
next
  show "sorted_wrt (<) (sorted_list_of_set (regions t crop))"
    by (rule strict_sorted_list_of_set)
next
  fix r assume "r \<in> regions t crop"
  then obtain p where p: "p \<in> set (map price (matching t crop r))"
    by (cases "matching t crop r") (auto simp: regions_matching)
  have "Min (set (map price (matching t crop r))) \<le> p"
    using p by (intro Min_le) simp_all
  moreover have "p \<le> Max (set (map price (matching t crop r)))"
    using p by (intro Max_ge) simp_all
  ultimately have "Min (set (map price (matching t crop r)))
      \<le> Max (set (map price (matching t crop r)))"
    by (rule order_trans)
  then show "js_number (Min (set (map price (matching t crop r))))
      \<le> js_number (Max (set (map price (matching t crop r))))"
    by (rule js_number_mono)
qed

theorem dashboard_per_region_witness:
  "query wheat_request ''crop'' = Some ''wheat'' \<and> ''wheat'' \<noteq> []
   \<and> regions market ''wheat'' = {''East'', ''North'', ''South''}
   \<and> snd (getDashboard (sqlite plain market) wheat_request) =
         \<lparr>status = 200,
          body = JArr
            [JObj [(''state'', JStr ''East''), (''min_price'', JNum 9007199254740992),
                   (''max_price'', JNum 9007199254740992), (''price_count'', JNum 1)],
             JObj [(''state'', JStr ''North''), (''min_price'', JNum (21 / 2)),
                   (''max_price'', JNum 15), (''price_count'', JNum 2)],
             JObj [(''state'', JStr ''South''), (''min_price'', JNum 20),
                   (''max_price'', JNum 20), (''price_count'', JNum 1)]]\<rparr>
   \<and> length (sorted_list_of_set (regions market ''wheat'')) = card (regions market ''wheat'')
   \<and> card (regions market ''wheat'') = 3
   \<and> sorted_wrt (<) (sorted_list_of_set (regions market ''wheat''))
   \<and> length (matching market ''wheat'' ''North'') = 2
   \<and> js_number (Min (set (map price (matching market ''wheat'' ''North''))))
        \<le> js_number (Max (set (map price (matching market ''wheat'' ''North''))))
   \<and> js_number (Min (set (map price (matching market ''wheat'' ''North'')))) = 21 / 2
   \<and> js_number (Max (set (map price (matching market ''wheat'' ''North'')))) = 15"
proof -
  have q: "query wheat_request ''crop'' = Some ''wheat''"
    by (simp add: wheat_request_def)
  have n: "''wheat'' \<noteq> []"
    by simp
  have r: "regions market ''wheat'' = {''East'', ''North'', ''South''}"
    using joined_regions [of market "''wheat''"] by (auto simp: market_join)
  have "sorted_list_of_set (regions market ''wheat'')
          = sort (remdups (map fst (joined market ''wheat'')))"
    by (simp only: aggregate_states)
  also have "\<dots> = [''East'', ''North'', ''South'']"
    unfolding market_join by code_simp
  finally have l: "sorted_list_of_set (regions market ''wheat'') = [''East'', ''North'', ''South'']" .
  have c: "card (regions market ''wheat'') = 3"
    by (simp add: r)
  have me: "matching market ''wheat'' ''East'' =
              [\<lparr>product_name = ''wheat'', price = 9007199254740993, farmerID = 4\<rparr>]"
    and mn: "matching market ''wheat'' ''North'' =
              [\<lparr>product_name = ''wheat'', price = 21 / 2, farmerID = 1\<rparr>,
               \<lparr>product_name = ''wheat'', price = 15, farmerID = 3\<rparr>]"
    and ms: "matching market ''wheat'' ''South'' =
              [\<lparr>product_name = ''wheat'', price = 20, farmerID = 2\<rparr>]"
    by (simp_all add: matching_def seller_region_def market_profiles) (simp_all add: market_def)
  have north: "''North'' \<in> regions market ''wheat''"
    by (simp add: r)
  show ?thesis
    using dashboard_per_region [OF q n, of plain market] q r c north
    by (simp add: l me mn ms region_entry_def js_number_small js_number_half js_number_tie)
qed

text \<open>
  C2. On the store holding exactly the listings (wheat, 10, seller A in North),
  (wheat, 20, seller B in North) and (wheat, 15, seller C in South), the dashboard for wheat
  answers the two entries North (10, 20, 2) and South (15, 15, 1), in that order, whatever
  the engine does where SQL leaves it free.
\<close>

theorem scenario_dashboard:
  "snd (getDashboard (sqlite e scenario) wheat_request) =
     \<lparr>status = 200,
      body = JArr
        [JObj [(''state'', JStr ''North''), (''min_price'', JNum 10),
               (''max_price'', JNum 20), (''price_count'', JNum 2)],
         JObj [(''state'', JStr ''South''), (''min_price'', JNum 15),
               (''max_price'', JNum 15), (''price_count'', JNum 1)]]\<rparr>"
  by (simp add: getDashboard_def wheat_request_def sqlite_def scenario_rows essential_def
      property_def)

section \<open>The missing parameter\<close>

text \<open>
  C3. When the \<open>crop\<close> parameter is absent or the empty string, the dashboard answers 400
  with the body \<open>{"error": "Crop name is required"}\<close> and does nothing else: no statement
  is sent to the store, whatever the store is.
\<close>

theorem dashboard_crop_required:
  assumes "query req ''crop'' = None \<or> query req ''crop'' = Some []"
  shows "getDashboard db req =
           ([], \<lparr>status = 400, body = JObj [(''error'', JStr ''Crop name is required'')]\<rparr>)"
  using assms by (auto simp: getDashboard_def)

theorem dashboard_crop_required_witness:
  "(query bare_request ''crop'' = None \<or> query bare_request ''crop'' = Some [])
   \<and> getDashboard debug_down bare_request =
        ([], \<lparr>status = 400, body = JObj [(''error'', JStr ''Crop name is required'')]\<rparr>)
   \<and> (query nameless_request ''crop'' = None \<or> query nameless_request ''crop'' = Some [])
   \<and> getDashboard debug_down nameless_request =
        ([], \<lparr>status = 400, body = JObj [(''error'', JStr ''Crop name is required'')]\<rparr>)"
proof -
  have a: "query bare_request ''crop'' = None \<or> query bare_request ''crop'' = Some []"
    by (simp add: bare_request_def)
  have b: "query nameless_request ''crop'' = None \<or> query nameless_request ''crop'' = Some []"
    by (simp add: nameless_request_def)
  show ?thesis
    using dashboard_crop_required [OF a, of debug_down]
      dashboard_crop_required [OF b, of debug_down] a b
    by simp
qed

section \<open>Storage failures\<close>

text \<open>
  C4, as amended. For a non-empty crop, when a statement the handler sent to the store has
  failed, the answer is 500; its body is \<open>{"error": "Error fetching dashboard data"}\<close> when
  the aggregate statement failed and \<open>{"error": "Database error"}\<close> when the diagnostic
  statement failed.
\<close>

theorem dashboard_storage_failure:
  assumes "query req ''crop'' = Some crop" and "crop \<noteq> []"
    and "DbAll q \<in> set (fst (getDashboard db req))" and "db_all db q = Inl err"
  shows "status (snd (getDashboard db req)) = 500
         \<and> body (snd (getDashboard db req)) =
             (case q of
                AggregateQuery c \<Rightarrow> JObj [(''error'', JStr ''Error fetching dashboard data'')]
              | _ \<Rightarrow> JObj [(''error'', JStr ''Database error'')])"
proof (cases "db_all db (DebugQuery crop)")
  case (Inl e1)
  have ev: "getDashboard db req =
     ([DbAll (DebugQuery crop), Console ERROR [ArgStr ''Error in debug query:'', ArgStr e1]],
      \<lparr>status = 500, body = JObj [(''error'', JStr ''Database error'')]\<rparr>)"
    by (rule dashboard_debug_failed [OF assms(1,2) Inl])
  with assms(3) have "q = DebugQuery crop" by simp
  with ev show ?thesis by simp
next
  case (Inr raw)
  show ?thesis
  proof (cases "db_all db (AggregateQuery crop)")
    case (Inl e2)
    have ev: "getDashboard db req =
     ([DbAll (DebugQuery crop),
       Console LOG [ArgStr (''Raw data for '' @ crop @ '':''), ArgRows raw],
       DbAll (AggregateQuery crop),
       Console ERROR [ArgStr ''Error fetching dashboard data:'', ArgStr e2]],
      \<lparr>status = 500, body = JObj [(''error'', JStr ''Error fetching dashboard data'')]\<rparr>)"
      by (rule dashboard_aggregate_failed [OF assms(1,2) Inr Inl])
    with assms(3) have "q = DebugQuery crop \<or> q = AggregateQuery crop" by simp
    with assms(4) Inr have "q = AggregateQuery crop" by auto
    with ev show ?thesis by simp
  next
    case (Inr rows)
    have "set (fst (getDashboard db req)) =
            {DbAll (DebugQuery crop),
             Console LOG [ArgStr (''Raw data for '' @ crop @ '':''), ArgRows raw],
             DbAll (AggregateQuery crop),
             Console LOG [ArgStr (''Aggregated results for '' @ crop @ '':''), ArgRows rows]}
            \<union> set (equal_warnings rows)"
      using assms(1,2) \<open>db_all db (DebugQuery crop) = Inr raw\<close> Inr
      by (simp add: getDashboard_def)
    moreover have "DbAll q \<notin> set (equal_warnings rows)"
      by (auto simp: equal_warnings_def)
    ultimately have "q = DebugQuery crop \<or> q = AggregateQuery crop"
      using assms(3) by auto
    with assms(4) Inr \<open>db_all db (DebugQuery crop) = Inr raw\<close> show ?thesis by auto
  qed
qed

theorem dashboard_storage_failure_witness:
  "query wheat_request ''crop'' = Some ''wheat'' \<and> ''wheat'' \<noteq> []
   \<and> DbAll (AggregateQuery ''wheat'') \<in> set (fst (getDashboard aggregate_down wheat_request))
   \<and> db_all aggregate_down (AggregateQuery ''wheat'') = Inl ''disk I/O error''
   \<and> status (snd (getDashboard aggregate_down wheat_request)) = 500
   \<and> body (snd (getDashboard aggregate_down wheat_request)) =
        JObj [(''error'', JStr ''Error fetching dashboard data'')]"
proof -
  have q: "query wheat_request ''crop'' = Some ''wheat''"
    by (simp add: wheat_request_def)
  have n: "''wheat'' \<noteq> []"
    by simp
  have i: "DbAll (AggregateQuery ''wheat'') \<in> set (fst (getDashboard aggregate_down wheat_request))"
    by (simp add: getDashboard_def wheat_request_def aggregate_down_def)
  have f: "db_all aggregate_down (AggregateQuery ''wheat'') = Inl ''disk I/O error''"
    by (simp add: aggregate_down_def)
  show ?thesis
    using dashboard_storage_failure [OF q n i f] q i f by simp
qed

text \<open>
  C4 as stated fails when it is the diagnostic statement that fails: the answer is 500, with
  the body \<open>{"error": "Database error"}\<close>.
\<close>

theorem dashboard_storage_failure_counterexample:
  "query wheat_request ''crop'' = Some ''wheat''
   \<and> db_all debug_down (DebugQuery ''wheat'') = Inl ''disk I/O error''
   \<and> getDashboard debug_down wheat_request =
        ([DbAll (DebugQuery ''wheat''),
          Console ERROR [ArgStr ''Error in debug query:'', ArgStr ''disk I/O error'']],
         \<lparr>status = 500, body = JObj [(''error'', JStr ''Database error'')]\<rparr>)
   \<and> body (snd (getDashboard debug_down wheat_request)) \<noteq>
        JObj [(''error'', JStr ''Error fetching dashboard data'')]"
  by (simp add: getDashboard_def wheat_request_def debug_down_def)



section \<open>A crop nobody lists\<close>

lemma joined_unlisted:
  assumes "crop \<notin> set (map product_name (products t))"
  shows "joined t crop = []"
  using assms by (auto simp: joined_def)

text \<open>
  C6. For a non-empty crop that no listing of the store carries, both statements
  succeeding, the dashboard answers 200 with the empty list.
\<close>

theorem dashboard_unlisted_crop:
  assumes "query req ''crop'' = Some crop" and "crop \<noteq> []"
    and "crop \<notin> set (map product_name (products t))"
  shows "snd (getDashboard (sqlite e t) req) = \<lparr>status = 200, body = JArr []\<rparr>"
  by (simp add: dashboard_sqlite [OF assms(1,2)] aggregate_rows_def
      joined_unlisted [OF assms(3)])

theorem dashboard_unlisted_crop_witness:
  "query rice_request ''crop'' = Some ''rice'' \<and> ''rice'' \<noteq> []
   \<and> ''rice'' \<notin> set (map product_name (products scenario))
   \<and> snd (getDashboard (sqlite plain scenario) rice_request) = \<lparr>status = 200, body = JArr []\<rparr>"
proof -
  have q: "query rice_request ''crop'' = Some ''rice''"
    by (simp add: rice_request_def)
  have n: "''rice'' \<noteq> []"
    by simp
  have u: "''rice'' \<notin> set (map product_name (products scenario))"
    by (simp add: scenario_def)
  show ?thesis
    using dashboard_unlisted_crop [OF q n u, of plain] q u by simp
qed

section \<open>The crop list\<close>

lemma count_list_distinct: "distinct xs \<Longrightarrow> x \<in> set xs \<Longrightarrow> count_list xs x = 1"
  by (induction xs) auto

lemma crops_body:
  "snd (getCrops (sqlite e t) req) =
     \<lparr>status = 200,
      body = JObj [(''crops'',
        JArr (map JStr (sort_key (scan_rank e) (remdups (map product_name (products t))))))]\<rparr>"
  by (simp add: getCrops_def sqlite_def crops_rows_def property_def comp_def)

text \<open>
  C7. For every store, the crop list of a successful \<open>GET /crops\<close> is \<open>{crops: [...]}\<close>
  with the product names of the listings, each exactly once, however many listings carry it.
\<close>

theorem crops_each_once:
  "\<exists>names.
      snd (getCrops (sqlite e t) req) =
        \<lparr>status = 200, body = JObj [(''crops'', JArr (map JStr names))]\<rparr>
      \<and> set names = set (map product_name (products t))
      \<and> (\<forall>n \<in> set (map product_name (products t)). count_list names n = 1)"
proof (intro exI conjI ballI)
  show "snd (getCrops (sqlite e t) req) =
     \<lparr>status = 200,
      body = JObj [(''crops'',
        JArr (map JStr (sort_key (scan_rank e) (remdups (map product_name (products t))))))]\<rparr>"
    by (rule crops_body)
next
  show "set (sort_key (scan_rank e) (remdups (map product_name (products t))))
          = set (map product_name (products t))"
    by simp
next
  fix n assume "n \<in> set (map product_name (products t))"
  then show "count_list (sort_key (scan_rank e) (remdups (map product_name (products t)))) n = 1"
    by (intro count_list_distinct) simp_all
qed

theorem crops_each_once_witness:
  "snd (getCrops (sqlite plain harvest) bare_request) =
     \<lparr>status = 200, body = JObj [(''crops'', JArr (map JStr [''rice'', ''wheat'']))]\<rparr>
   \<and> set (map product_name (products harvest)) = {''rice'', ''wheat''}
   \<and> count_list [''rice'', ''wheat''] ''rice'' = 1
   \<and> count_list [''rice'', ''wheat''] ''wheat'' = 1"
proof -
  have names: "sort_key (scan_rank plain) (remdups (map product_name (products harvest)))
                 = [''rice'', ''wheat'']"
    by (simp add: plain_def harvest_def)
  obtain ns where
    ns: "snd (getCrops (sqlite plain harvest) bare_request) =
           \<lparr>status = 200, body = JObj [(''crops'', JArr (map JStr ns))]\<rparr>"
      "set ns = set (map product_name (products harvest))"
      "\<forall>n \<in> set (map product_name (products harvest)). count_list ns n = 1"
    using crops_each_once [of plain harvest bare_request] by blast
  have "map JStr ns = map JStr [''rice'', ''wheat'']"
    using ns(1) by (simp add: crops_body names)
  moreover have "inj JStr"
    by (simp add: inj_def)
  ultimately have "ns = [''rice'', ''wheat'']"
    by (rule map_injective)
  moreover have "set (map product_name (products harvest)) = {''rice'', ''wheat''}"
    by (auto simp: harvest_def)
  ultimately show ?thesis
    using ns by simp
qed

text \<open>
  C10. When the listings table is empty, the statement succeeds with no row and
  \<open>GET /crops\<close> answers 200 with \<open>{"crops": []}\<close>.
\<close>

theorem crops_of_empty_table:
  assumes "products t = []"
  shows "db_all (sqlite e t) CropsQuery = Inr []
         \<and> getCrops (sqlite e t) req =
             ([DbAll CropsQuery], \<lparr>status = 200, body = JObj [(''crops'', JArr [])]\<rparr>)"
  using assms by (simp add: getCrops_def sqlite_def crops_rows_def)

theorem crops_of_empty_table_witness:
  "products vacant = []
   \<and> db_all (sqlite plain vacant) CropsQuery = Inr []
   \<and> getCrops (sqlite plain vacant) bare_request =
        ([DbAll CropsQuery], \<lparr>status = 200, body = JObj [(''crops'', JArr [])]\<rparr>)"
proof -
  have v: "products vacant = []"
    by (simp add: vacant_def)
  show ?thesis
    using crops_of_empty_table [OF v, of plain bare_request] v by simp
qed

section \<open>Equal minimum and maximum\<close>

lemma essential_of_aggregate_row:
  "essential (aggregate_row e j r) =
     JObj [(''state'', JStr r),
           (''min_price'', json_of (sql_min (group_prices j r))),
           (''max_price'', json_of (sql_max (group_prices j r))),
           (''price_count'', JNum (of_nat (length (group_prices j r))))]"
  by (simp add: essential_def aggregate_row_def property_def)

lemma essential_aggregate_rows:
  "map essential (aggregate_rows e t crop) =
     map (\<lambda>r. JObj [(''state'', JStr r),
           (''min_price'', json_of (sql_min (group_prices (joined t crop) r))),
           (''max_price'', json_of (sql_max (group_prices (joined t crop) r))),
           (''price_count'', JNum (of_nat (length (group_prices (joined t crop) r))))])
       (sort (remdups (map fst (joined t crop))))"
  by (simp add: aggregate_rows_def essential_of_aggregate_row)

lemma dashboard_warns:
  assumes "query req ''crop'' = Some crop" and "crop \<noteq> []"
  shows "set (equal_warnings (aggregate_rows e t crop)) \<subseteq> set (fst (getDashboard (sqlite e t) req))"
  using assms by (auto simp: getDashboard_def sqlite_def)

text \<open>
  C8. For a non-empty crop on a store whose statements succeed, the answer is 200 and its
  body a list of objects with exactly the fields \<open>state\<close>, \<open>min_price\<close>, \<open>max_price\<close> and
  \<open>price_count\<close>, in every case: a row whose minimum and maximum are equal gets its
  warning on the console and the answer is as for any other row; and the answer does not
  depend on the text the engine puts in \<open>all_prices\<close>.
\<close>

theorem dashboard_shape_kept:
  assumes "query req ''crop'' = Some crop" and "crop \<noteq> []"
  shows "status (snd (getDashboard (sqlite e t) req)) = 200
         \<and> (\<exists>objs. body (snd (getDashboard (sqlite e t) req)) = JArr objs
               \<and> length objs = length (aggregate_rows e t crop)
               \<and> (\<forall>ob \<in> set objs. \<exists>s mn mx n.
                     ob = JObj [(''state'', s), (''min_price'', mn),
                                (''max_price'', mx), (''price_count'', n)]))
         \<and> (\<forall>row \<in> set (aggregate_rows e t crop).
               property row ''min_price'' = property row ''max_price'' \<longrightarrow>
               Console WARN
                 [ArgTemplate ''Warning: Min and Max prices are equal for ''
                    (property row ''state'') '':'',
                  ArgVal (property row ''all_prices'')]
                 \<in> set (fst (getDashboard (sqlite e t) req)))
         \<and> snd (getDashboard (sqlite (e\<lparr>group_concat := g\<rparr>) t) req) =
             snd (getDashboard (sqlite e t) req)"
proof (intro conjI ballI impI)
  show "status (snd (getDashboard (sqlite e t) req)) = 200"
    by (simp add: dashboard_sqlite [OF assms])
next
  show "\<exists>objs. body (snd (getDashboard (sqlite e t) req)) = JArr objs
               \<and> length objs = length (aggregate_rows e t crop)
               \<and> (\<forall>ob \<in> set objs. \<exists>s mn mx n.
                     ob = JObj [(''state'', s), (''min_price'', mn),
                                (''max_price'', mx), (''price_count'', n)])"
  proof (rule exI [of _ "map essential (aggregate_rows e t crop)"], intro conjI ballI)
    show "body (snd (getDashboard (sqlite e t) req)) = JArr (map essential (aggregate_rows e t crop))"
      by (simp add: dashboard_sqlite [OF assms])
  next
    show "length (map essential (aggregate_rows e t crop)) = length (aggregate_rows e t crop)"
      by simp
  next
    fix ob assume "ob \<in> set (map essential (aggregate_rows e t crop))"
    then show "\<exists>s mn mx n. ob = JObj [(''state'', s), (''min_price'', mn),
                                (''max_price'', mx), (''price_count'', n)]"
      unfolding essential_aggregate_rows by auto
  qed
next
  fix row
  assume "row \<in> set (aggregate_rows e t crop)"
    and "property row ''min_price'' = property row ''max_price''"
  then have "Console WARN
                 [ArgTemplate ''Warning: Min and Max prices are equal for ''
                    (property row ''state'') '':'',
                  ArgVal (property row ''all_prices'')]
              \<in> set (equal_warnings (aggregate_rows e t crop))"
    unfolding equal_warnings_def by (simp add: bexI [of _ row])
  then show "Console WARN
                 [ArgTemplate ''Warning: Min and Max prices are equal for ''
                    (property row ''state'') '':'',
                  ArgVal (property row ''all_prices'')]
              \<in> set (fst (getDashboard (sqlite e t) req))"
    using dashboard_warns [OF assms] by blast
next
  show "snd (getDashboard (sqlite (e\<lparr>group_concat := g\<rparr>) t) req) =
          snd (getDashboard (sqlite e t) req)"
    by (simp add: dashboard_sqlite [OF assms] essential_aggregate_rows)
qed

theorem dashboard_shape_kept_witness:
  "query wheat_request ''crop'' = Some ''wheat'' \<and> ''wheat'' \<noteq> []
   \<and> status (snd (getDashboard (sqlite plain scenario) wheat_request)) = 200
   \<and> [(''state'', SText ''South''), (''min_price'', SNum 15), (''max_price'', SNum 15),
       (''price_count'', SNum 1), (''all_prices'', SText [])]
        \<in> set (aggregate_rows plain scenario ''wheat'')
   \<and> Console WARN [ArgTemplate ''Warning: Min and Max prices are equal for ''
                       (Some (SText ''South'')) '':'',
                     ArgVal (Some (SText []))]
        \<in> set (fst (getDashboard (sqlite plain scenario) wheat_request))
   \<and> snd (getDashboard (sqlite (plain\<lparr>group_concat := (\<lambda>ps. ''15'')\<rparr>) scenario) wheat_request) =
        snd (getDashboard (sqlite plain scenario) wheat_request)"
proof -
  have q: "query wheat_request ''crop'' = Some ''wheat''"
    by (simp add: wheat_request_def)
  have n: "''wheat'' \<noteq> []"
    by simp
  have south: "[(''state'', SText ''South''), (''min_price'', SNum 15), (''max_price'', SNum 15),
       (''price_count'', SNum 1), (''all_prices'', SText [])]
        \<in> set (aggregate_rows plain scenario ''wheat'')"
    by (simp add: scenario_rows plain_def)
  have kept: "status (snd (getDashboard (sqlite plain scenario) wheat_request)) = 200
     \<and> (\<forall>row \<in> set (aggregate_rows plain scenario ''wheat'').
           property row ''min_price'' = property row ''max_price'' \<longrightarrow>
           Console WARN
             [ArgTemplate ''Warning: Min and Max prices are equal for ''
                (property row ''state'') '':'',
              ArgVal (property row ''all_prices'')]
             \<in> set (fst (getDashboard (sqlite plain scenario) wheat_request)))
     \<and> snd (getDashboard (sqlite (plain\<lparr>group_concat := (\<lambda>ps. ''15'')\<rparr>) scenario) wheat_request) =
         snd (getDashboard (sqlite plain scenario) wheat_request)"
    using dashboard_shape_kept [OF q n, of plain scenario "\<lambda>ps. ''15''"] by blast
  then have "Console WARN [ArgTemplate ''Warning: Min and Max prices are equal for ''
                       (Some (SText ''South'')) '':'',
                     ArgVal (Some (SText []))]
        \<in> set (fst (getDashboard (sqlite plain scenario) wheat_request))"
    using south by (auto simp: property_def dest!: bspec [OF _ south])
  with q n south kept show ?thesis by blast
qed

section \<open>The interrupt signal\<close>

text \<open>
  C9. On \<open>SIGINT\<close> the handle is closed first and the process then exits with code 0, the
  last thing it does, when the close succeeds and when it fails with any error.
\<close>

theorem sigint_close_then_exit:
  "onSIGINT (db\<lparr>db_close := None\<rparr>) =
     [DbClose, Console LOG [ArgStr ''Database connection closed''], Exit 0]
   \<and> onSIGINT (db\<lparr>db_close := Some err\<rparr>) =
     [DbClose, Console ERROR [ArgStr ''Error closing database:'', ArgStr err],
      Console LOG [ArgStr ''Database connection closed''], Exit 0]"
  by (simp add: onSIGINT_def)

theorem sigint_close_then_exit_witness:
  "onSIGINT (sqlite plain scenario) =
     [DbClose, Console LOG [ArgStr ''Database connection closed''], Exit 0]
   \<and> onSIGINT close_down =
     [DbClose, Console ERROR [ArgStr ''Error closing database:'', ArgStr ''database is locked''],
      Console LOG [ArgStr ''Database connection closed''], Exit 0]"
proof -
  have a: "(sqlite plain scenario)\<lparr>db_close := None\<rparr> = sqlite plain scenario"
    by (simp add: sqlite_def)
  have b: "close_down\<lparr>db_close := Some ''database is locked''\<rparr> = close_down"
    by (simp add: close_down_def)
  show ?thesis
    using sigint_close_then_exit [of "sqlite plain scenario" "''database is locked''"]
      sigint_close_then_exit [of close_down "''database is locked''"]
    by (simp only: a b)
qed

end
